theory Spec2Isabelle
  imports Complex_Main
begin

section \<open>JavaScript numbers\<close>

text \<open>
  The component computes with three values of TypeScript type \<open>number\<close>: the battery
  \<open>level\<close>, the \<open>threshold\<close> and \<open>chargingTime\<close>. A \<open>number\<close> is a finite
  value, one of the two infinities, or NaN. A finite value is carried as the real number
  it denotes; the values a program can hold are the binary64 doubles, the reals that
  \<open>fl64\<close> below leaves unchanged. The sign of zero is not represented.
\<close>

datatype number = Finite real | PosInfinity | NegInfinity | NaN

subsection \<open>Rounding to a double\<close>

text \<open>
  A positive real is brought to the form \<open>m * 2 ^ e\<close> with \<open>2 ^ 52 \<le> m < 2 ^ 53\<close>, or
  with \<open>e = - 1074\<close> and a smaller \<open>m\<close> in the subnormal range. The first argument
  bounds the number of steps: 2200 is more than any real below \<open>2 ^ 1024\<close> needs, and
  a larger real is still far above that bound when the steps run out.
\<close>

fun normalise :: "nat \<Rightarrow> real \<Rightarrow> int \<Rightarrow> real \<times> int" where
  "normalise 0 m e = (m, e)"
| "normalise (Suc n) m e =
     (if 2 ^ 53 \<le> m then normalise n (m / 2) (e + 1)
      else if m < 2 ^ 52 \<and> - 1074 < e then normalise n (m * 2) (e - 1)
      else (m, e))"

text \<open>The nearest integer, a tie going to the even one.\<close>

definition round_half_even :: "real \<Rightarrow> int" where
  "round_half_even m =
     (if m - of_int \<lfloor>m\<rfloor> < 1 / 2 then \<lfloor>m\<rfloor>
      else if 1 / 2 < m - of_int \<lfloor>m\<rfloor> then \<lfloor>m\<rfloor> + 1
      else if even \<lfloor>m\<rfloor> then \<lfloor>m\<rfloor> else \<lfloor>m\<rfloor> + 1)"

definition scaled :: "int \<Rightarrow> int \<Rightarrow> real" where
  "scaled k e = (if 0 \<le> e then of_int k * 2 ^ nat e else of_int k / 2 ^ nat (- e))"

text \<open>
  IEEE 754 rounding of a real to binary64, to nearest with ties to even: the significand
  is rounded to 53 bits, and a result of \<open>2 ^ 1024\<close> or more is an infinity.
\<close>

definition fl64_pos :: "real \<Rightarrow> number" where
  "fl64_pos x =
     (case normalise 2200 x 0 of (m, e) \<Rightarrow>
        if 2 ^ 1024 \<le> scaled (round_half_even m) e then PosInfinity
        else Finite (scaled (round_half_even m) e))"

fun js_negate :: "number \<Rightarrow> number" where
  "js_negate (Finite a) = Finite (- a)"
| "js_negate PosInfinity = NegInfinity"
| "js_negate NegInfinity = PosInfinity"
| "js_negate NaN = NaN"

definition fl64 :: "real \<Rightarrow> number" where
  "fl64 x =
     (if x = 0 then Finite 0 else if 0 < x then fl64_pos x else js_negate (fl64_pos (- x)))"

subsection \<open>Operators\<close>

text \<open>
  The operator \<open>*\<close>: the product of two finite doubles is their exact product rounded
  to a double. A decimal literal such as \<open>0.79\<close> denotes \<open>fl64 (79 / 100)\<close>.
\<close>

fun js_times :: "number \<Rightarrow> number \<Rightarrow> number" where
  "js_times NaN y = NaN"
| "js_times x NaN = NaN"
| "js_times (Finite a) (Finite b) = fl64 (a * b)"
| "js_times (Finite a) PosInfinity =
     (if a = 0 then NaN else if 0 < a then PosInfinity else NegInfinity)"
| "js_times (Finite a) NegInfinity =
     (if a = 0 then NaN else if 0 < a then NegInfinity else PosInfinity)"
| "js_times PosInfinity (Finite b) =
     (if b = 0 then NaN else if 0 < b then PosInfinity else NegInfinity)"
| "js_times NegInfinity (Finite b) =
     (if b = 0 then NaN else if 0 < b then NegInfinity else PosInfinity)"
| "js_times PosInfinity PosInfinity = PosInfinity"
| "js_times PosInfinity NegInfinity = NegInfinity"
| "js_times NegInfinity PosInfinity = NegInfinity"
| "js_times NegInfinity NegInfinity = PosInfinity"

text \<open>
  The operator \<open>/\<close>; a zero divisor is taken as \<open>+0\<close>. The quotient of two finite
  values is kept exact here, without the final rounding to a double.
\<close>

fun js_divide :: "number \<Rightarrow> number \<Rightarrow> number" where
  "js_divide NaN y = NaN"
| "js_divide x NaN = NaN"
| "js_divide (Finite a) (Finite b) =
     (if b \<noteq> 0 then Finite (a / b)
      else if a = 0 then NaN else if 0 < a then PosInfinity else NegInfinity)"
| "js_divide (Finite a) PosInfinity = Finite 0"
| "js_divide (Finite a) NegInfinity = Finite 0"
| "js_divide PosInfinity (Finite b) = (if 0 \<le> b then PosInfinity else NegInfinity)"
| "js_divide NegInfinity (Finite b) = (if 0 \<le> b then NegInfinity else PosInfinity)"
| "js_divide PosInfinity y = NaN"
| "js_divide NegInfinity y = NaN"

text \<open>The operators \<open>>=\<close> and \<open>>\<close>: false as soon as one operand is NaN.\<close>

fun js_ge :: "number \<Rightarrow> number \<Rightarrow> bool" where
  "js_ge NaN y = False"
| "js_ge x NaN = False"
| "js_ge (Finite a) (Finite b) = (b \<le> a)"
| "js_ge PosInfinity y = True"
| "js_ge x NegInfinity = True"
| "js_ge (Finite a) PosInfinity = False"
| "js_ge NegInfinity y = False"

fun js_gt :: "number \<Rightarrow> number \<Rightarrow> bool" where
  "js_gt NaN y = False"
| "js_gt x NaN = False"
| "js_gt (Finite a) (Finite b) = (b < a)"
| "js_gt PosInfinity PosInfinity = False"
| "js_gt PosInfinity y = True"
| "js_gt NegInfinity y = False"
| "js_gt (Finite a) NegInfinity = True"
| "js_gt (Finite a) PosInfinity = False"

text \<open>The operator \<open>!==\<close> on numbers: NaN differs from everything, itself included.\<close>

definition js_strict_neq :: "number \<Rightarrow> number \<Rightarrow> bool" where
  "js_strict_neq x y = (x = NaN \<or> y = NaN \<or> x \<noteq> y)"

text \<open>
  \<open>Math.round\<close>: the nearest integer, a tie going up (towards \<open>+\<infinity>\<close>); the infinities
  and NaN are returned as they are.
\<close>

fun Math_round :: "number \<Rightarrow> number" where
  "Math_round (Finite a) = Finite (of_int \<lfloor>a + 1 / 2\<rfloor>)"
| "Math_round x = x"

section \<open>The state of the component\<close>

text \<open>
  What \<open>useBattery()\<close> publishes. The hook itself is not part of the sources at hand, so
  its result is an input of the model: any snapshot may be published at any time.
\<close>

record battery_state =
  supported :: bool
  loading :: bool
  level :: number
  charging :: bool
  chargingTime :: number

text \<open>The calls made on the shared \<open>alarmSound\<close> object, oldest first.\<close>

datatype alarm_call = Start | Stop

text \<open>
  The four \<open>useState\<close> cells of \<open>App\<close>, the current battery snapshot and the log of
  calls on \<open>alarmSound\<close>.
\<close>

record app_state =
  battery :: battery_state
  threshold :: number
  isAlarmEnabled :: bool
  isAlarmActive :: bool
  hasInteracted :: bool
  calls :: "alarm_call list"

text \<open>The initial values given to \<open>useState\<close>; nothing has been called on the sound yet.\<close>

definition initial :: "battery_state \<Rightarrow> app_state" where
  "initial b =
     \<lparr>battery = b, threshold = Finite 80, isAlarmEnabled = True, isAlarmActive = False,
      hasInteracted = False, calls = []\<rparr>"

subsection \<open>Derived state\<close>

definition batteryPercent :: "app_state \<Rightarrow> number" where
  "batteryPercent s = Math_round (js_times (level (battery s)) (Finite 100))"

definition isThresholdReached :: "app_state \<Rightarrow> bool" where
  "isThresholdReached s = js_ge (batteryPercent s) (threshold s)"

definition handleInteraction :: "app_state \<Rightarrow> app_state" where
  "handleInteraction s = (if \<not> hasInteracted s then s\<lparr>hasInteracted := True\<rparr> else s)"

subsection \<open>The alarm effect\<close>

definition shouldAlarm :: "app_state \<Rightarrow> bool" where
  "shouldAlarm s =
     (supported (battery s) \<and> charging (battery s) \<and> isThresholdReached s \<and>
      isAlarmEnabled s \<and> hasInteracted s)"

text \<open>
  The body of the first \<open>useEffect\<close>: it stores \<open>shouldAlarm\<close> in \<open>isAlarmActive\<close> and
  calls \<open>start()\<close> or \<open>stop()\<close> on the sound. It has no cleanup function.
\<close>

definition alarmEffect :: "app_state \<Rightarrow> app_state" where
  "alarmEffect s =
     s\<lparr>isAlarmActive := shouldAlarm s,
       calls := calls s @ [if shouldAlarm s then Start else Stop]\<rparr>"

text \<open>The dependency array of that effect.\<close>

definition deps :: "app_state \<Rightarrow> bool \<times> bool \<times> bool \<times> bool \<times> bool" where
  "deps s =
     (supported (battery s), charging (battery s), isThresholdReached s,
      isAlarmEnabled s, hasInteracted s)"

text \<open>
  The second \<open>useEffect\<close> has an empty dependency array and does nothing but return a
  cleanup function, which runs once, when the component unmounts.
\<close>

definition unmount :: "app_state \<Rightarrow> app_state" where
  "unmount s = s\<lparr>calls := calls s @ [Stop]\<rparr>"

section \<open>What is rendered\<close>

datatype status_message = UnplugChargerNow | ChargeGoalMet | AlarmSetFor number | ConnectCharger

text \<open>
  The parts of the main display that depend on the state: the alert icon above the
  percentage, the percentage, the charging label, the remaining minutes (when shown), the
  status message, the threshold and the switch handed to the settings panel, and the hint
  that asks for a first tap.
\<close>

record main_display =
  alertIcon :: bool
  percentage :: number
  chargingLabel :: bool
  minutesRemaining :: "number option"
  statusMessage :: status_message
  panelThreshold :: number
  panelAlarmEnabled :: bool
  tapHint :: bool

datatype screen = LoadingSpinner | UnsupportedScreen | MainDisplay main_display

definition mainDisplay :: "app_state \<Rightarrow> main_display" where
  "mainDisplay s =
     \<lparr>alertIcon = isAlarmActive s,
      percentage = batteryPercent s,
      chargingLabel = charging (battery s),
      minutesRemaining =
        (if charging (battery s) \<and> js_strict_neq (chargingTime (battery s)) PosInfinity \<and>
            js_gt (chargingTime (battery s)) (Finite 0)
         then Some (Math_round (js_divide (chargingTime (battery s)) (Finite 60)))
         else None),
      statusMessage =
        (if isAlarmActive s then UnplugChargerNow
         else if charging (battery s) \<and> isThresholdReached s then ChargeGoalMet
         else if charging (battery s) then AlarmSetFor (threshold s)
         else ConnectCharger),
      panelThreshold = threshold s,
      panelAlarmEnabled = isAlarmEnabled s,
      tapHint = (\<not> hasInteracted s)\<rparr>"

text \<open>The value \<open>App\<close> returns: the two early returns come first, in this order.\<close>

definition App :: "app_state \<Rightarrow> screen" where
  "App s =
     (if loading (battery s) then LoadingSpinner
      else if \<not> supported (battery s) then UnsupportedScreen
      else MainDisplay (mainDisplay s))"

section \<open>Events and re-rendering\<close>

text \<open>
  What can happen to a mounted component: the battery hook publishes a new snapshot, the
  user clicks somewhere on the page, or the settings panel calls one of the two setters
  it was handed. The click handler is attached to the root element of the main display
  only, so a click on one of the two other screens reaches no handler. Several state
  changes made while one browser event is handled are a \<open>Batch\<close>, applied in the order
  they are made and followed by a single render: a click on a control of the settings
  panel calls a setter and then bubbles to the click handler of the root element.
\<close>

datatype event =
    BatteryChange battery_state
  | Click
  | SetThreshold number
  | SetAlarmEnabled bool
  | Batch "event list"

fun dispatch :: "event \<Rightarrow> app_state \<Rightarrow> app_state" where
  "dispatch (BatteryChange b) s = s\<lparr>battery := b\<rparr>"
| "dispatch Click s =
     (case App s of MainDisplay v \<Rightarrow> handleInteraction s | _ \<Rightarrow> s)"
| "dispatch (SetThreshold t) s = s\<lparr>threshold := t\<rparr>"
| "dispatch (SetAlarmEnabled e) s = s\<lparr>isAlarmEnabled := e\<rparr>"
| "dispatch (Batch es) s = fold dispatch es s"

text \<open>Whether an event is a click or contains one.\<close>

fun clicked :: "event \<Rightarrow> bool" where
  "clicked Click = True"
| "clicked (Batch es) = list_ex clicked es"
| "clicked e = False"

text \<open>
  After an event the component renders with the changed state, \<open>dispatch e s\<close>, in which
  \<open>isAlarmActive\<close> still has its previous value. Then the alarm effect runs if one of its
  dependencies differs from the previous render. The effect's own \<open>setIsAlarmActive\<close>
  causes one more render, with the state \<open>step e s\<close>, in which no dependency has changed.
\<close>

definition rerender :: "app_state \<Rightarrow> app_state \<Rightarrow> app_state" where
  "rerender prev s = (if deps s \<noteq> deps prev then alarmEffect s else s)"

definition step :: "event \<Rightarrow> app_state \<Rightarrow> app_state" where
  "step e s = rerender s (dispatch e s)"

text \<open>On mount every effect runs once.\<close>

definition mount :: "battery_state \<Rightarrow> app_state" where
  "mount b = alarmEffect (initial b)"

fun run :: "event list \<Rightarrow> app_state \<Rightarrow> app_state" where
  "run [] s = s"
| "run (e # es) s = run es (step e s)"

text \<open>
  The states \<open>App\<close> is called with: after an event the render before the effect and the
  render after it (when the effect leaves \<open>isAlarmActive\<close> as it is, React skips the
  second, which would show the same); from the start, the render at mount, the one after
  the first run of the effect, and those of the events.
\<close>

definition renders :: "event \<Rightarrow> app_state \<Rightarrow> app_state list" where
  "renders e s = [dispatch e s, step e s]"

fun frames :: "event list \<Rightarrow> app_state \<Rightarrow> app_state list" where
  "frames [] s = []"
| "frames (e # es) s = renders e s @ frames es (step e s)"

definition rendered :: "battery_state \<Rightarrow> event list \<Rightarrow> app_state list" where
  "rendered b es = initial b # mount b # frames es (mount b)"

section \<open>The alarm signal\<close>

text \<open>
  Modelled from the spec: the module \<open>components/AlarmSound\<close> is not among the sources.
  Its state is one flag, \<open>start()\<close> sets it and \<open>stop()\<close> clears it, so that a repeated
  call changes nothing; the sound is silent before the first call.
\<close>

fun signal :: "alarm_call \<Rightarrow> bool \<Rightarrow> bool" where
  "signal Start running = True"
| "signal Stop running = False"

text \<open>
  Modelled from the spec: whether the sound is playing after the given calls, made in
  this order on a silent signal.
\<close>

definition running :: "alarm_call list \<Rightarrow> bool" where
  "running cs = fold signal cs False"

section \<open>Scenarios\<close>

text \<open>
  Scenario A of the specification: a supported battery on the charger at 79 percent, the
  default threshold of 80, the alarm enabled, and one click made after mounting.
\<close>

definition battery79 :: battery_state where
  "battery79 =
     \<lparr>supported = True, loading = False, level = fl64 (79 / 100), charging = True,
      chargingTime = Finite 1200\<rparr>"

definition scenarioA :: app_state where
  "scenarioA = run [Click] (mount battery79)"

text \<open>A battery that is supported and not on the charger.\<close>

definition batteryIdle :: battery_state where
  "batteryIdle =
     \<lparr>supported = True, loading = False, level = Finite (1 / 2), charging = False,
      chargingTime = PosInfinity\<rparr>"

text \<open>
  Modelled from the spec: the hook \<open>hooks/useBattery\<close> is not among the sources. This
  is the status it holds when created, before the battery facility has answered:
  \<open>loading\<close> is true, \<open>supported\<close> is not determined yet (here it is false), and the
  other fields have their defaults.
\<close>

definition batteryPending :: battery_state where
  "batteryPending =
     \<lparr>supported = False, loading = True, level = Finite 0, charging = False,
      chargingTime = Finite 0\<rparr>"

text \<open>Scenario B raises the level of scenario A to 80 percent; scenario C then unplugs.\<close>

definition scenarioB :: app_state where
  "scenarioB = step (BatteryChange ((battery scenarioA)\<lparr>level := fl64 (80 / 100)\<rparr>)) scenarioA"

definition scenarioC :: app_state where
  "scenarioC = step (BatteryChange ((battery scenarioB)\<lparr>charging := False\<rparr>)) scenarioB"

text \<open>A supported battery on the charger at 90 percent, above the default threshold.\<close>

definition battery90 :: battery_state where
  "battery90 =
     \<lparr>supported = True, loading = False, level = fl64 (9 / 10), charging = True,
      chargingTime = Finite 600\<rparr>"

lemmas model_defs =
  battery79_def scenarioA_def batteryIdle_def batteryPending_def
  mount_def initial_def step_def rerender_def deps_def alarmEffect_def shouldAlarm_def
  isThresholdReached_def batteryPercent_def App_def handleInteraction_def mainDisplay_def
  unmount_def js_strict_neq_def

section \<open>The invariant of the mounted component\<close>

text \<open>
  Between two events the stored flag agrees with the predicate, and the last call made on
  the sound is the one the predicate asks for.
\<close>

definition settled :: "app_state \<Rightarrow> bool" where
  "settled s =
     (isAlarmActive s = shouldAlarm s \<and> calls s \<noteq> [] \<and>
      last (calls s) = (if shouldAlarm s then Start else Stop))"

section \<open>Doubles of the scenarios\<close>

lemma normalise_numeral:
  "normalise (numeral k) m e =
     (if 2 ^ 53 \<le> m then normalise (pred_numeral k) (m / 2) (e + 1)
      else if m < 2 ^ 52 \<and> - 1074 < e then normalise (pred_numeral k) (m * 2) (e - 1)
      else (m, e))"
  by (simp add: numeral_eq_Suc)

lemmas fl64_eval = fl64_def fl64_pos_def normalise_numeral round_half_even_def scaled_def

lemma fl64_zero [simp]: "fl64 0 = Finite 0"
  by (simp add: fl64_def)

lemma fl64_integers [simp]:
  "fl64 1 = Finite 1" "fl64 50 = Finite 50" "fl64 79 = Finite 79" "fl64 80 = Finite 80"
  "fl64 90 = Finite 90" "fl64 100 = Finite 100"
  by (simp_all add: fl64_eval)

text \<open>The doubles written \<open>0.79\<close>, \<open>0.8\<close> and \<open>0.9\<close>.\<close>

lemma fl64_literals:
  "fl64 (79 / 100) = Finite (889460926405673 / 1125899906842624)"
  "fl64 (4 / 5) = Finite (3602879701896397 / 4503599627370496)"
  "fl64 (9 / 10) = Finite (8106479329266893 / 9007199254740992)"
  by (simp_all add: fl64_eval)

text \<open>Their products with 100 are the integers 79, 80 and 90.\<close>

lemma percent_of_literals [simp]:
  "js_times (fl64 (79 / 100)) (Finite 100) = Finite 79"
  "js_times (fl64 (4 / 5)) (Finite 100) = Finite 80"
  "js_times (fl64 (9 / 10)) (Finite 100) = Finite 90"
  by (simp_all add: fl64_literals) (simp_all add: fl64_eval)

text \<open>
  The product is rounded: the double written \<open>0.015\<close> lies below 15/1000, and its
  product with 100 is the double 1.5, which \<open>Math.round\<close> takes to 2. A product beyond
  the largest double is \<open>Infinity\<close>.
\<close>

lemma product_is_rounded:
  "fl64 (15 / 1000) = Finite (1080863910568919 / 72057594037927936)"
  "1080863910568919 / 72057594037927936 < (15 / 1000 :: real)"
  "js_times (fl64 (15 / 1000)) (Finite 100) = Finite (3 / 2)"
  "Math_round (js_times (fl64 (15 / 1000)) (Finite 100)) = Finite 2"
  "js_times (Finite (2 ^ 1023)) (Finite 2) = PosInfinity"
  by (simp_all add: fl64_eval)

section \<open>Basic facts\<close>

lemma dispatch_output:
  "calls (dispatch e s) = calls s \<and> isAlarmActive (dispatch e s) = isAlarmActive s"
proof (induction e arbitrary: s)
  case (Batch es)
  then have "calls (fold dispatch es s) = calls s \<and>
      isAlarmActive (fold dispatch es s) = isAlarmActive s"
    by (induction es arbitrary: s) simp_all
  then show ?case by simp
qed (simp_all add: handleInteraction_def split: screen.splits)

lemma dispatch_calls [simp]: "calls (dispatch e s) = calls s"
  by (simp add: dispatch_output)

lemma dispatch_isAlarmActive [simp]: "isAlarmActive (dispatch e s) = isAlarmActive s"
  by (simp add: dispatch_output)

lemma shouldAlarm_deps: "deps s = deps t \<Longrightarrow> shouldAlarm s = shouldAlarm t"
  by (simp add: deps_def shouldAlarm_def)

lemma shouldAlarm_alarmEffect [simp]: "shouldAlarm (alarmEffect s) = shouldAlarm s"
  by (simp add: alarmEffect_def shouldAlarm_def isThresholdReached_def batteryPercent_def)

lemma shouldAlarm_step [simp]: "shouldAlarm (step e s) = shouldAlarm (dispatch e s)"
  by (simp add: step_def rerender_def)

lemma step_inputs [simp]:
  "battery (step e s) = battery (dispatch e s)"
  "threshold (step e s) = threshold (dispatch e s)"
  "isAlarmEnabled (step e s) = isAlarmEnabled (dispatch e s)"
  "hasInteracted (step e s) = hasInteracted (dispatch e s)"
  by (simp_all add: step_def rerender_def alarmEffect_def)

lemma calls_step:
  "calls (step e s) =
     (if deps (dispatch e s) = deps s then calls s
      else calls s @ [if shouldAlarm (dispatch e s) then Start else Stop])"
  by (simp add: step_def rerender_def alarmEffect_def)

lemma running_snoc [simp]: "running (cs @ [c]) = (c = Start)"
  by (cases c) (simp_all add: running_def)

lemma percent_79 [simp]:
  "level (battery s) = Finite (79 / 100) \<or> level (battery s) = fl64 (79 / 100) \<Longrightarrow>
     batteryPercent s = Finite 79"
  by (auto simp: batteryPercent_def)

lemma percent_80 [simp]:
  "level (battery s) = Finite (80 / 100) \<or> level (battery s) = fl64 (80 / 100) \<Longrightarrow>
     batteryPercent s = Finite 80"
  by (auto simp: batteryPercent_def)

subsection \<open>The invariant holds in every reachable state\<close>

lemma settled_alarmEffect: "settled (alarmEffect s)"
  by (simp add: settled_def) (simp add: alarmEffect_def)

lemma settled_mount: "settled (mount b)"
  by (simp add: mount_def settled_alarmEffect)

lemma settled_step: "settled s \<Longrightarrow> settled (step e s)"
proof (cases "deps (dispatch e s) = deps s")
  case True
  assume "settled s"
  moreover from True have "shouldAlarm (dispatch e s) = shouldAlarm s"
    by (rule shouldAlarm_deps)
  moreover from True have "step e s = dispatch e s"
    by (simp add: step_def rerender_def)
  ultimately show ?thesis
    by (simp add: settled_def)
next
  case False
  then have "step e s = alarmEffect (dispatch e s)"
    by (simp add: step_def rerender_def)
  then show ?thesis
    by (simp add: settled_alarmEffect)
qed

lemma settled_run: "settled s \<Longrightarrow> settled (run es s)"
  by (induction es arbitrary: s) (simp_all add: settled_step)

lemma settled_reachable: "settled (run es (mount b))"
  by (rule settled_run) (rule settled_mount)

lemma running_settled: "settled s \<Longrightarrow> running (calls s) = shouldAlarm s"
proof -
  assume st: "settled s"
  then obtain cs c where cs: "calls s = cs @ [c]"
    by (metis settled_def append_butlast_last_id)
  with st have "c = (if shouldAlarm s then Start else Stop)"
    by (simp add: settled_def)
  with cs show ?thesis by simp
qed

lemma js_strict_neq_PosInfinity: "js_strict_neq x PosInfinity = (x \<noteq> PosInfinity)"
  by (auto simp: js_strict_neq_def)

section \<open>The alarm condition\<close>

text \<open>
  C1. Every recomputation stores in \<open>isAlarmActive\<close> the conjunction of \<open>supported\<close>,
  \<open>charging\<close>, \<open>Math.round(level * 100) >= threshold\<close>, \<open>isAlarmEnabled\<close> and
  \<open>hasInteracted\<close>, for all values of the six inputs, and the stored flag has this value
  in every state the mounted component reaches. At a level of 0.79 with a threshold of 80
  and the four flags true it is false.
\<close>

theorem alarm_active_iff:
  "(isAlarmActive (alarmEffect s) \<longleftrightarrow>
      supported (battery s) \<and> charging (battery s) \<and>
      js_ge (Math_round (js_times (level (battery s)) (Finite 100))) (threshold s) \<and>
      isAlarmEnabled s \<and> hasInteracted s) \<and>
   (isAlarmActive (run es (mount b)) \<longleftrightarrow>
      supported (battery (run es (mount b))) \<and> charging (battery (run es (mount b))) \<and>
      js_ge (Math_round (js_times (level (battery (run es (mount b)))) (Finite 100)))
        (threshold (run es (mount b))) \<and>
      isAlarmEnabled (run es (mount b)) \<and> hasInteracted (run es (mount b))) \<and>
   (supported (battery s) \<and> charging (battery s) \<and> isAlarmEnabled s \<and> hasInteracted s \<and>
    threshold s = Finite 80 \<and>
    (level (battery s) = Finite (79 / 100) \<or> level (battery s) = fl64 (79 / 100)) \<longrightarrow>
      \<not> isAlarmActive (alarmEffect s))"
proof -
  have eff: "isAlarmActive (alarmEffect s) = shouldAlarm s" for s
    by (simp add: alarmEffect_def)
  have unfolded: "shouldAlarm s \<longleftrightarrow>
      supported (battery s) \<and> charging (battery s) \<and>
      js_ge (Math_round (js_times (level (battery s)) (Finite 100))) (threshold s) \<and>
      isAlarmEnabled s \<and> hasInteracted s" for s
    by (simp add: shouldAlarm_def isThresholdReached_def batteryPercent_def)
  have first: "isAlarmActive (alarmEffect s) \<longleftrightarrow>
      supported (battery s) \<and> charging (battery s) \<and>
      js_ge (Math_round (js_times (level (battery s)) (Finite 100))) (threshold s) \<and>
      isAlarmEnabled s \<and> hasInteracted s"
    using eff unfolded by simp
  have "isAlarmActive (run es (mount b)) = shouldAlarm (run es (mount b))"
    using settled_reachable [of es b] by (simp add: settled_def)
  then have second: "isAlarmActive (run es (mount b)) \<longleftrightarrow>
      supported (battery (run es (mount b))) \<and> charging (battery (run es (mount b))) \<and>
      js_ge (Math_round (js_times (level (battery (run es (mount b)))) (Finite 100)))
        (threshold (run es (mount b))) \<and>
      isAlarmEnabled (run es (mount b)) \<and> hasInteracted (run es (mount b))"
    using unfolded by simp
  have third: "supported (battery s) \<and> charging (battery s) \<and> isAlarmEnabled s \<and>
      hasInteracted s \<and> threshold s = Finite 80 \<and>
      (level (battery s) = Finite (79 / 100) \<or> level (battery s) = fl64 (79 / 100)) \<longrightarrow>
      \<not> isAlarmActive (alarmEffect s)"
    by (auto simp: eff shouldAlarm_def isThresholdReached_def)
  from first second third show ?thesis by blast
qed

theorem alarm_active_iff_witness:
  "\<not> isAlarmActive (alarmEffect scenarioA) \<and>
   \<not> isAlarmActive (run [Click] (mount battery79)) \<and>
   level (battery scenarioA) = fl64 (79 / 100) \<and>
   threshold scenarioA = Finite 80 \<and>
   supported (battery scenarioA) \<and> charging (battery scenarioA) \<and>
   isAlarmEnabled scenarioA \<and> hasInteracted scenarioA"
  using alarm_active_iff [of scenarioA "[Click]" battery79]
  by (simp add: model_defs)

section \<open>Calls on the alarm signal\<close>

text \<open>
  C2, as stated, fails: a recomputation whose predicate has the value of the previous one
  does call the signal. After mounting with a battery that is not charging, the first
  click changes the dependency \<open>hasInteracted\<close>; the predicate is false before and after,
  and \<open>stop()\<close> is called once more.
\<close>

theorem unchanged_predicate_calls_stop:
  "deps (dispatch Click (mount batteryIdle)) \<noteq> deps (mount batteryIdle) \<and>
   shouldAlarm (dispatch Click (mount batteryIdle)) = shouldAlarm (mount batteryIdle) \<and>
   calls (mount batteryIdle) = [Stop] \<and>
   calls (step Click (mount batteryIdle)) = [Stop, Stop]"
  by (simp add: model_defs)

text \<open>
  C2, amended. The effect runs exactly when one of its five dependencies has changed, and
  each run makes exactly one call: \<open>start()\<close> if the predicate is true, \<open>stop()\<close>
  otherwise. When the predicate has the value it had at the previous recomputation, that
  call is \<open>stop()\<close>, never \<open>start()\<close>; when no dependency has changed, no call is made.
\<close>

theorem calls_on_recomputation:
  "(deps (dispatch e s) = deps s \<longrightarrow> calls (step e s) = calls s) \<and>
   (deps (dispatch e s) \<noteq> deps s \<longrightarrow>
      calls (step e s) = calls s @ [if shouldAlarm (dispatch e s) then Start else Stop]) \<and>
   (deps (dispatch e s) \<noteq> deps s \<and> shouldAlarm (dispatch e s) = shouldAlarm s \<longrightarrow>
      calls (step e s) = calls s @ [Stop])"
proof -
  have "\<not> shouldAlarm (dispatch e s)"
    if "deps (dispatch e s) \<noteq> deps s" "shouldAlarm (dispatch e s) = shouldAlarm s"
    using that by (auto simp: deps_def shouldAlarm_def)
  then show ?thesis
    by (auto simp: calls_step)
qed

theorem calls_on_recomputation_witness:
  "deps (dispatch (SetThreshold (Finite 10)) scenarioA) \<noteq> deps scenarioA \<and>
   calls (step (SetThreshold (Finite 10)) scenarioA) = calls scenarioA @ [Start] \<and>
   deps (dispatch (SetThreshold (Finite 90)) scenarioA) = deps scenarioA \<and>
   calls (step (SetThreshold (Finite 90)) scenarioA) = calls scenarioA \<and>
   deps (dispatch Click (mount batteryIdle)) \<noteq> deps (mount batteryIdle) \<and>
   shouldAlarm (dispatch Click (mount batteryIdle)) = shouldAlarm (mount batteryIdle) \<and>
   calls (step Click (mount batteryIdle)) = calls (mount batteryIdle) @ [Stop]"
  using calls_on_recomputation [of "SetThreshold (Finite 10)" scenarioA]
    calls_on_recomputation [of "SetThreshold (Finite 90)" scenarioA]
    calls_on_recomputation [of Click "mount batteryIdle"]
  by (simp add: model_defs)

text \<open>
  C3. In every state the mounted component reaches, the flag just computed equals the
  predicate, the last call made on the signal is \<open>start()\<close> if the flag is true and
  \<open>stop()\<close> if it is false, and the signal is running exactly if the flag is true.
\<close>

theorem signal_follows_alarm:
  "isAlarmActive (run es (mount b)) = shouldAlarm (run es (mount b)) \<and>
   calls (run es (mount b)) \<noteq> [] \<and>
   last (calls (run es (mount b))) =
     (if isAlarmActive (run es (mount b)) then Start else Stop) \<and>
   running (calls (run es (mount b))) = isAlarmActive (run es (mount b))"
  using settled_reachable [of es b] running_settled [of "run es (mount b)"]
  by (simp add: settled_def)

theorem signal_follows_alarm_witness:
  "isAlarmActive
     (run [Click, BatteryChange (battery79\<lparr>level := fl64 (4 / 5)\<rparr>)] (mount battery79)) \<and>
   calls (run [Click, BatteryChange (battery79\<lparr>level := fl64 (4 / 5)\<rparr>)] (mount battery79))
     = [Stop, Stop, Start] \<and>
   running
     (calls (run [Click, BatteryChange (battery79\<lparr>level := fl64 (4 / 5)\<rparr>)] (mount battery79)))"
  using signal_follows_alarm [of "[Click, BatteryChange (battery79\<lparr>level := fl64 (4 / 5)\<rparr>)]" battery79]
  by (simp add: model_defs)

lemma stops_while_false:
  "(\<And>k. k \<le> length es \<Longrightarrow> \<not> shouldAlarm (run (take k es) s)) \<Longrightarrow>
     \<exists>n. calls (run es s) = calls s @ replicate n Stop"
proof (induction es arbitrary: s)
  case Nil
  then show ?case by simp
next
  case (Cons e es)
  have "\<not> shouldAlarm (run (take (Suc 0) (e # es)) s)"
    by (rule Cons.prems) simp
  then have quiet: "\<not> shouldAlarm (dispatch e s)"
    by simp
  have "\<not> shouldAlarm (run (take k es) (step e s))" if "k \<le> length es" for k
    using Cons.prems [of "Suc k"] that by simp
  then obtain n where n: "calls (run es (step e s)) = calls (step e s) @ replicate n Stop"
    using Cons.IH [of "step e s"] by blast
  show ?case
  proof (cases "deps (dispatch e s) = deps s")
    case True
    with n show ?thesis
      by (auto simp: calls_step)
  next
    case False
    with n quiet have "calls (run (e # es) s) = calls s @ replicate (Suc n) Stop"
      by (simp add: calls_step)
    then show ?thesis ..
  qed
qed

text \<open>
  C4. In a state with the inputs of scenario A the predicate is false. Raising the level
  to 0.80 and nothing else makes \<open>isAlarmActive\<close> true with exactly one call, \<open>start()\<close>.
  Taking the charger off then makes it false with exactly one call, \<open>stop()\<close>. From
  there, whatever happens, as long as the predicate stays false every further call is
  \<open>stop()\<close>: no \<open>start()\<close> is made before the predicate is true again. The two levels
  may be the doubles written \<open>0.79\<close> and \<open>0.8\<close> or the exact fractions.
\<close>

theorem scenario_B_then_C:
  assumes "supported (battery s)" and "charging (battery s)"
    and "isAlarmEnabled s" and "hasInteracted s"
    and "threshold s = Finite 80"
    and "level (battery s) = Finite (79 / 100) \<or> level (battery s) = fl64 (79 / 100)"
    and "l80 = Finite (80 / 100) \<or> l80 = fl64 (80 / 100)"
    and "sB = step (BatteryChange ((battery s)\<lparr>level := l80\<rparr>)) s"
    and "sC = step (BatteryChange ((battery sB)\<lparr>charging := False\<rparr>)) sB"
  shows "\<not> shouldAlarm s \<and>
    isAlarmActive sB \<and> calls sB = calls s @ [Start] \<and>
    \<not> isAlarmActive sC \<and> calls sC = calls sB @ [Stop] \<and>
    ((\<forall>k\<le>length es. \<not> shouldAlarm (run (take k es) sC)) \<longrightarrow>
       (\<exists>n. calls (run es sC) = calls sC @ replicate n Stop))"
proof -
  let ?t = "s\<lparr>battery := (battery s)\<lparr>level := l80\<rparr>\<rparr>"
  from assms(6) have "batteryPercent s = Finite 79"
    by (rule percent_79)
  with assms(5) have low: "\<not> isThresholdReached s"
    by (simp add: isThresholdReached_def)
  from assms(7) have "level (battery ?t) = Finite (80 / 100) \<or> level (battery ?t) = fl64 (80 / 100)"
    by simp
  then have "batteryPercent ?t = Finite 80"
    by (rule percent_80)
  with assms(5) have high: "isThresholdReached ?t"
    by (simp add: isThresholdReached_def)
  from low have a: "\<not> shouldAlarm s"
    by (simp add: shouldAlarm_def)
  from assms(1-4) low high have "deps ?t \<noteq> deps s" and "shouldAlarm ?t"
    by (simp_all add: deps_def shouldAlarm_def)
  with assms(8) have b: "isAlarmActive sB \<and> calls sB = calls s @ [Start]"
    by (simp add: step_def rerender_def alarmEffect_def)
  from assms(1-4,8) have sB: "supported (battery sB) \<and> charging (battery sB) \<and>
      isAlarmEnabled sB \<and> hasInteracted sB"
    by simp
  with assms(9) have c: "\<not> isAlarmActive sC \<and> calls sC = calls sB @ [Stop]"
    by (simp add: step_def rerender_def deps_def alarmEffect_def shouldAlarm_def)
  have d: "(\<forall>k\<le>length es. \<not> shouldAlarm (run (take k es) sC)) \<longrightarrow>
       (\<exists>n. calls (run es sC) = calls sC @ replicate n Stop)"
    using stops_while_false [of es sC] by blast
  from a b c d show ?thesis by blast
qed

theorem scenario_B_then_C_witness:
  "supported (battery scenarioA) \<and> charging (battery scenarioA) \<and>
   isAlarmEnabled scenarioA \<and> hasInteracted scenarioA \<and>
   threshold scenarioA = Finite 80 \<and> level (battery scenarioA) = fl64 (79 / 100) \<and>
   \<not> shouldAlarm scenarioA \<and>
   isAlarmActive scenarioB \<and> calls scenarioB = [Stop, Stop, Start] \<and>
   \<not> isAlarmActive scenarioC \<and> calls scenarioC = [Stop, Stop, Start, Stop] \<and>
   \<not> shouldAlarm (run [] scenarioC) \<and>
   \<not> shouldAlarm (run [SetAlarmEnabled False] scenarioC) \<and>
   \<not> shouldAlarm (run [SetAlarmEnabled False, SetThreshold (Finite 50)] scenarioC) \<and>
   (\<exists>n. calls (run [SetAlarmEnabled False, SetThreshold (Finite 50)] scenarioC) =
      calls scenarioC @ replicate n Stop)"
proof -
  let ?es = "[SetAlarmEnabled False, SetThreshold (Finite 50)]"
  have p1: "supported (battery scenarioA)" and p2: "charging (battery scenarioA)"
    and p3: "isAlarmEnabled scenarioA" and p4: "hasInteracted scenarioA"
    and p5: "threshold scenarioA = Finite 80"
    and p6: "level (battery scenarioA) = fl64 (79 / 100)"
    and cA: "calls scenarioA = [Stop, Stop]"
    by (simp_all add: model_defs)
  from p6 have p6': "level (battery scenarioA) = Finite (79 / 100) \<or>
      level (battery scenarioA) = fl64 (79 / 100)" ..
  have p7: "fl64 (80 / 100) = Finite (80 / 100) \<or> fl64 (80 / 100) = fl64 (80 / 100)"
    by simp
  note res = scenario_B_then_C [OF p1 p2 p3 p4 p5 p6' p7 scenarioB_def scenarioC_def, of ?es]
  have cC: "\<not> charging (battery scenarioC)"
    by (simp add: scenarioC_def)
  then have q0: "\<not> shouldAlarm (run [] scenarioC)"
    by (simp add: shouldAlarm_def)
  have q1: "\<not> shouldAlarm (run [SetAlarmEnabled False] scenarioC)"
    by simp (simp add: shouldAlarm_def)
  from cC have q2: "\<not> shouldAlarm (run ?es scenarioC)"
    by simp (simp add: shouldAlarm_def)
  have "\<not> shouldAlarm (run (take k ?es) scenarioC)" if "k \<le> length ?es" for k
  proof -
    from that have "k = 0 \<or> k = 1 \<or> k = 2" by auto
    with q0 q1 q2 show ?thesis by auto
  qed
  with res have "\<exists>n. calls (run ?es scenarioC) = calls scenarioC @ replicate n Stop"
    by blast
  moreover from res cA have "calls scenarioB = [Stop, Stop, Start]"
    and "calls scenarioC = [Stop, Stop, Start, Stop]"
    by simp_all
  ultimately show ?thesis
    using p1 p2 p3 p4 p5 p6 q0 q1 q2 res by blast
qed

section \<open>The interaction gate\<close>

lemma hasInteracted_dispatch: "hasInteracted s \<Longrightarrow> hasInteracted (dispatch e s)"
proof (induction e arbitrary: s)
  case (Batch es)
  from Batch.IH Batch.prems have "hasInteracted (fold dispatch es s)"
    by (induction es arbitrary: s) simp_all
  then show ?case by simp
qed (simp_all add: handleInteraction_def split: screen.splits)

lemma hasInteracted_run: "hasInteracted s \<Longrightarrow> hasInteracted (run es s)"
  by (induction es arbitrary: s) (simp_all add: hasInteracted_dispatch)

lemma hasInteracted_unclicked: "\<not> clicked e \<Longrightarrow> hasInteracted (dispatch e s) = hasInteracted s"
proof (induction e arbitrary: s)
  case (Batch es)
  from Batch.IH Batch.prems have "hasInteracted (fold dispatch es s) = hasInteracted s"
    by (induction es arbitrary: s) (simp_all add: list_ex_iff)
  then show ?case by simp
qed simp_all

text \<open>
  C5. \<open>hasInteracted\<close> is false when the component mounts. A click on the main display
  makes it true, no event without a click does, and once it is true it is true after
  every further sequence of events.
\<close>

theorem hasInteracted_monotonic:
  "\<not> hasInteracted (mount b) \<and>
   (hasInteracted s \<longrightarrow> hasInteracted (run es s)) \<and>
   (App s = MainDisplay (mainDisplay s) \<longrightarrow> hasInteracted (step Click s)) \<and>
   (\<not> hasInteracted s \<and> hasInteracted (step e s) \<longrightarrow> clicked e)"
proof -
  have a: "\<not> hasInteracted (mount b)"
    by (simp add: mount_def initial_def alarmEffect_def)
  have b: "hasInteracted s \<longrightarrow> hasInteracted (run es s)"
    by (simp add: hasInteracted_run)
  have c: "App s = MainDisplay (mainDisplay s) \<longrightarrow> hasInteracted (step Click s)"
    by (simp add: handleInteraction_def)
  have d: "\<not> hasInteracted s \<and> hasInteracted (step e s) \<longrightarrow> clicked e"
    using hasInteracted_unclicked [of e s] by auto
  from a b c d show ?thesis by blast
qed

theorem hasInteracted_monotonic_witness:
  "\<not> hasInteracted (mount battery79) \<and>
   App (mount battery79) = MainDisplay (mainDisplay (mount battery79)) \<and>
   hasInteracted (step Click (mount battery79)) \<and> clicked Click \<and>
   hasInteracted
     (run [Click, SetAlarmEnabled False, BatteryChange batteryPending, Click]
        (step Click (mount battery79))) \<and>
   hasInteracted (step (Batch [SetAlarmEnabled False, Click]) (mount battery79)) \<and>
   clicked (Batch [SetAlarmEnabled False, Click])"
  using hasInteracted_monotonic [of battery79 "mount battery79"
      "[SetAlarmEnabled False, BatteryChange batteryPending, Click]" Click]
    hasInteracted_monotonic [of battery79 "step Click (mount battery79)"
      "[Click, SetAlarmEnabled False, BatteryChange batteryPending, Click]" Click]
    hasInteracted_monotonic [of battery79 "mount battery79" "[]"
      "Batch [SetAlarmEnabled False, Click]"]
  by (simp add: model_defs)

section \<open>Unmounting\<close>

text \<open>
  C6. Unmounting calls \<open>stop()\<close> whatever the state is: with the alarm active or not,
  and also when a state change has been made whose effect has not run yet.
\<close>

theorem unmount_stops:
  "calls (unmount s) = calls s @ [Stop] \<and>
   calls (unmount (dispatch e s)) = calls s @ [Stop] \<and>
   last (calls (unmount (step e s))) = Stop"
  by (simp add: unmount_def)

theorem unmount_stops_witness:
  "isAlarmActive scenarioB \<and>
   calls (unmount scenarioB) = [Stop, Stop, Start, Stop] \<and>
   \<not> isAlarmActive scenarioA \<and>
   calls (unmount scenarioA) = [Stop, Stop, Stop] \<and>
   calls (unmount (dispatch (BatteryChange ((battery scenarioA)\<lparr>level := Finite 1\<rparr>)) scenarioA))
     = [Stop, Stop, Stop]"
  using unmount_stops [of scenarioB Click] unmount_stops [of scenarioA Click]
    unmount_stops [of scenarioA "BatteryChange ((battery scenarioA)\<lparr>level := Finite 1\<rparr>)"]
  by (simp add: scenarioB_def model_defs)

section \<open>The screens\<close>

lemma frames_unsupported:
  "settled s \<Longrightarrow> \<not> isAlarmActive s \<Longrightarrow>
   (\<And>k. k \<le> length es \<Longrightarrow> \<not> supported (battery (run (take k es) s))) \<Longrightarrow>
     t \<in> set (frames es s) \<Longrightarrow> \<not> isAlarmActive t"
proof (induction es arbitrary: s)
  case Nil
  then show ?case by simp
next
  case (Cons e es)
  have "\<not> supported (battery (run (take (Suc 0) (e # es)) s))"
    by (rule Cons.prems(3)) simp
  then have "\<not> shouldAlarm (step e s)"
    by (simp add: shouldAlarm_def)
  moreover from Cons.prems(1) have st: "settled (step e s)"
    by (rule settled_step)
  ultimately have quiet: "\<not> isAlarmActive (step e s)"
    by (simp add: settled_def)
  have later: "\<not> supported (battery (run (take k es) (step e s)))" if "k \<le> length es" for k
    using Cons.prems(3) [of "Suc k"] that by simp
  from Cons.prems(4) consider "t = dispatch e s" | "t = step e s" | "t \<in> set (frames es (step e s))"
    by (auto simp: renders_def)
  then show ?case
  proof cases
    case 1
    with Cons.prems(2) show ?thesis by simp
  next
    case 2
    with quiet show ?thesis by simp
  next
    case 3
    show ?thesis
      using st quiet later 3 by (rule Cons.IH)
  qed
qed

text \<open>
  C7, as stated, fails: with \<open>supported\<close> false and \<open>loading\<close> true the component
  returns the loading spinner, not the unsupported screen, since the test of \<open>loading\<close>
  comes first.
\<close>

theorem unsupported_while_loading:
  "\<not> supported (battery (mount batteryPending)) \<and>
   App (mount batteryPending) = LoadingSpinner \<and>
   App (mount batteryPending) \<noteq> UnsupportedScreen"
  by (simp add: model_defs)

text \<open>
  C7, amended. While \<open>loading\<close> is true the component shows the spinner, whatever
  \<open>supported\<close> is; when \<open>supported\<close> is false and \<open>loading\<close> is false it shows the
  unsupported screen. So when \<open>supported\<close> is false the main display is not rendered.
  Whenever \<open>supported\<close> is false the predicate is false, \<open>isAlarmActive\<close> is false after
  a recomputation and in every state the component reaches, whatever the other inputs
  are; and in a session in which \<open>supported\<close> is false throughout, \<open>isAlarmActive\<close> is
  false in every render.
\<close>

theorem unsupported_no_alarm:
  "(loading (battery s) \<longrightarrow> App s = LoadingSpinner) \<and>
   (\<not> supported (battery s) \<and> \<not> loading (battery s) \<longrightarrow> App s = UnsupportedScreen) \<and>
   (\<not> supported (battery s) \<longrightarrow>
      App s \<noteq> MainDisplay v \<and> \<not> shouldAlarm s \<and> \<not> isAlarmActive (alarmEffect s)) \<and>
   (\<not> supported (battery (run es (mount b))) \<longrightarrow> \<not> isAlarmActive (run es (mount b))) \<and>
   ((\<forall>k\<le>length es. \<not> supported (battery (run (take k es) (mount b)))) \<longrightarrow>
      (\<forall>t\<in>set (rendered b es). \<not> isAlarmActive t))"
proof -
  have a: "loading (battery s) \<longrightarrow> App s = LoadingSpinner"
    and a': "\<not> supported (battery s) \<and> \<not> loading (battery s) \<longrightarrow> App s = UnsupportedScreen"
    and a'': "\<not> supported (battery s) \<longrightarrow>
      App s \<noteq> MainDisplay v \<and> \<not> shouldAlarm s \<and> \<not> isAlarmActive (alarmEffect s)"
    by (simp_all add: App_def shouldAlarm_def alarmEffect_def)
  have inv: "isAlarmActive (run es (mount b)) = shouldAlarm (run es (mount b))"
    using settled_reachable [of es b] by (simp add: settled_def)
  then have b: "\<not> supported (battery (run es (mount b))) \<longrightarrow> \<not> isAlarmActive (run es (mount b))"
    by (simp add: shouldAlarm_def)
  have c: "\<not> isAlarmActive t"
    if never: "\<forall>k\<le>length es. \<not> supported (battery (run (take k es) (mount b)))"
      and t: "t \<in> set (rendered b es)" for t
  proof -
    have "\<not> isAlarmActive (initial b)"
      by (simp add: initial_def)
    moreover have quiet: "\<not> isAlarmActive (mount b)"
      by (simp add: mount_def alarmEffect_def shouldAlarm_def initial_def)
    moreover have "\<not> isAlarmActive t" if "t \<in> set (frames es (mount b))"
      using settled_mount quiet _ that
    proof (rule frames_unsupported)
      fix k assume "k \<le> length es"
      with never show "\<not> supported (battery (run (take k es) (mount b)))" by blast
    qed
    ultimately show ?thesis
      using t by (auto simp: rendered_def)
  qed
  from a a' a'' b c show ?thesis by blast
qed

theorem unsupported_no_alarm_witness:
  "loading (battery (mount batteryPending)) \<and>
   \<not> supported (battery (mount batteryPending)) \<and>
   App (mount batteryPending) = LoadingSpinner \<and>
   \<not> loading (battery (mount (batteryPending\<lparr>loading := False\<rparr>))) \<and>
   App (mount (batteryPending\<lparr>loading := False\<rparr>)) = UnsupportedScreen \<and>
   \<not> supported (battery (run [] (mount batteryPending))) \<and>
   \<not> supported (battery (run [BatteryChange (battery79\<lparr>supported := False\<rparr>)]
       (mount batteryPending))) \<and>
   \<not> supported (battery (run [BatteryChange (battery79\<lparr>supported := False\<rparr>), Click]
       (mount batteryPending))) \<and>
   \<not> isAlarmActive (run [BatteryChange (battery79\<lparr>supported := False\<rparr>), Click]
       (mount batteryPending)) \<and>
   list_all (\<lambda>t. \<not> isAlarmActive t)
     (rendered batteryPending [BatteryChange (battery79\<lparr>supported := False\<rparr>), Click])"
proof -
  let ?es = "[BatteryChange (battery79\<lparr>supported := False\<rparr>), Click]"
  let ?u = "mount (batteryPending\<lparr>loading := False\<rparr>)"
  have l: "loading (battery (mount batteryPending))"
    and n: "\<not> supported (battery (mount batteryPending))"
    and l': "\<not> loading (battery ?u)" and n': "\<not> supported (battery ?u)"
    by (simp_all add: mount_def initial_def alarmEffect_def batteryPending_def)
  have u0: "\<not> supported (battery (run [] (mount batteryPending)))"
    and u1: "\<not> supported (battery (run [BatteryChange (battery79\<lparr>supported := False\<rparr>)]
        (mount batteryPending)))"
    and u2: "\<not> supported (battery (run ?es (mount batteryPending)))"
    by (simp_all add: mount_def initial_def alarmEffect_def batteryPending_def App_def)
  have never: "\<forall>k\<le>length ?es. \<not> supported (battery (run (take k ?es) (mount batteryPending)))"
  proof (intro allI impI)
    fix k assume "k \<le> length ?es"
    then have "k = 0 \<or> k = 1 \<or> k = 2" by auto
    with u0 u1 u2 show "\<not> supported (battery (run (take k ?es) (mount batteryPending)))"
      by auto
  qed
  note r = unsupported_no_alarm [of "mount batteryPending" "mainDisplay (mount batteryPending)" ?es batteryPending]
  note r' = unsupported_no_alarm [of ?u "mainDisplay ?u" ?es batteryPending]
  from r l have "App (mount batteryPending) = LoadingSpinner"
    by blast
  moreover from r' l' n' have "App ?u = UnsupportedScreen"
    by blast
  moreover from r u2 have "\<not> isAlarmActive (run ?es (mount batteryPending))"
    by blast
  moreover from r never have "\<forall>t\<in>set (rendered batteryPending ?es). \<not> isAlarmActive t"
    by blast
  then have "list_all (\<lambda>t. \<not> isAlarmActive t) (rendered batteryPending ?es)"
    by (simp only: list_all_iff)
  ultimately show ?thesis
    using l n l' u0 u1 u2 by blast
qed

section \<open>The main display\<close>

text \<open>
  C8. On the main display the remaining time is shown if and only if \<open>charging\<close> is
  true, \<open>chargingTime\<close> is not \<open>Infinity\<close> and \<open>chargingTime\<close> is greater than 0, and
  what is shown is \<open>Math.round(chargingTime / 60)\<close>, for a finite positive time the
  nearest integer to a sixtieth of it. An unknown time is the number \<open>Infinity\<close> itself,
  for which nothing is shown.
\<close>

theorem minutes_remaining_shown:
  assumes "App s = MainDisplay v"
  shows "(minutesRemaining v \<noteq> None \<longleftrightarrow>
            charging (battery s) \<and> chargingTime (battery s) \<noteq> PosInfinity \<and>
            js_gt (chargingTime (battery s)) (Finite 0)) \<and>
         (minutesRemaining v \<noteq> None \<longrightarrow>
            minutesRemaining v =
              Some (Math_round (js_divide (chargingTime (battery s)) (Finite 60)))) \<and>
         (charging (battery s) \<and> chargingTime (battery s) = Finite t \<and> 0 < t \<longrightarrow>
            minutesRemaining v = Some (Finite (of_int (round (t / 60))))) \<and>
         (chargingTime (battery s) = PosInfinity \<longrightarrow> minutesRemaining v = None)"
proof -
  from assms have v: "v = mainDisplay s"
    by (simp add: App_def split: if_splits)
  show ?thesis
    unfolding v
    by (simp add: mainDisplay_def js_strict_neq_PosInfinity round_def)
qed

theorem minutes_remaining_shown_witness:
  "App scenarioA = MainDisplay (mainDisplay scenarioA) \<and>
   charging (battery scenarioA) \<and> chargingTime (battery scenarioA) = Finite 1200 \<and>
   minutesRemaining (mainDisplay scenarioA) = Some (Finite 20) \<and>
   App (mount (battery79\<lparr>chargingTime := PosInfinity\<rparr>)) =
     MainDisplay (mainDisplay (mount (battery79\<lparr>chargingTime := PosInfinity\<rparr>))) \<and>
   minutesRemaining (mainDisplay (mount (battery79\<lparr>chargingTime := PosInfinity\<rparr>))) = None"
proof -
  have a: "App scenarioA = MainDisplay (mainDisplay scenarioA)"
    by (simp add: scenarioA_def App_def battery79_def mount_def initial_def
        alarmEffect_def handleInteraction_def)
  have b: "App (mount (battery79\<lparr>chargingTime := PosInfinity\<rparr>)) =
      MainDisplay (mainDisplay (mount (battery79\<lparr>chargingTime := PosInfinity\<rparr>)))"
    by (simp add: App_def battery79_def mount_def initial_def alarmEffect_def)
  have c: "charging (battery scenarioA) \<and> chargingTime (battery scenarioA) = Finite 1200"
    by (simp add: scenarioA_def battery79_def mount_def initial_def
        alarmEffect_def handleInteraction_def App_def)
  have d: "chargingTime (battery (mount (battery79\<lparr>chargingTime := PosInfinity\<rparr>))) = PosInfinity"
    by (simp add: mount_def initial_def alarmEffect_def)
  note r = minutes_remaining_shown [OF a, of 1200]
  note r' = minutes_remaining_shown [OF b, of 0]
  have pos: "(0::real) < 1200"
    by simp
  from r [THEN conjunct2, THEN conjunct2, THEN conjunct1] c pos
  have "minutesRemaining (mainDisplay scenarioA) = Some (Finite (of_int (round (1200 / 60 :: real))))"
    by (elim impE conjE) (intro conjI, assumption+)
  moreover have "round (1200 / 60 :: real) = 20"
    by (simp add: round_def)
  ultimately have e: "minutesRemaining (mainDisplay scenarioA) = Some (Finite 20)"
    by simp
  from r' [THEN conjunct2, THEN conjunct2, THEN conjunct2] d
  have f: "minutesRemaining (mainDisplay (mount (battery79\<lparr>chargingTime := PosInfinity\<rparr>))) = None"
    by (rule mp)
  from a b c e f show ?thesis
    by (intro conjI) (simp_all only: simp_thms)
qed

text \<open>
  C9. The percentage on the main display is \<open>Math.round(level * 100)\<close>, the value the
  alarm predicate compares with the threshold, and the threshold handed to the settings
  panel and named in the status message is the one compared. So the level condition of
  the alarm holds if and only if the displayed percentage is at least the displayed
  threshold.
\<close>

theorem displayed_percentage:
  assumes "App s = MainDisplay v"
  shows "percentage v = Math_round (js_times (level (battery s)) (Finite 100)) \<and>
         percentage v = batteryPercent s \<and>
         panelThreshold v = threshold s \<and>
         (statusMessage v = AlarmSetFor t \<longrightarrow> t = threshold s) \<and>
         (isThresholdReached s \<longleftrightarrow> js_ge (percentage v) (panelThreshold v)) \<and>
         (shouldAlarm s \<longleftrightarrow>
            supported (battery s) \<and> charging (battery s) \<and>
            js_ge (percentage v) (panelThreshold v) \<and> isAlarmEnabled s \<and> hasInteracted s)"
proof -
  from assms have v: "v = mainDisplay s"
    by (simp add: App_def split: if_splits)
  have "percentage (mainDisplay s) = batteryPercent s"
    and "panelThreshold (mainDisplay s) = threshold s"
    and "statusMessage (mainDisplay s) = AlarmSetFor t \<longrightarrow> t = threshold s"
    by (simp_all add: mainDisplay_def)
  then show ?thesis
    unfolding v
    by (simp add: shouldAlarm_def isThresholdReached_def) (simp add: batteryPercent_def)
qed

theorem displayed_percentage_witness:
  "App scenarioA = MainDisplay (mainDisplay scenarioA) \<and>
   percentage (mainDisplay scenarioA) = Finite 79 \<and>
   panelThreshold (mainDisplay scenarioA) = Finite 80 \<and>
   statusMessage (mainDisplay scenarioA) = AlarmSetFor (Finite 80) \<and>
   \<not> isThresholdReached scenarioA"
proof -
  have a: "App scenarioA = MainDisplay (mainDisplay scenarioA)"
    by (simp add: scenarioA_def App_def battery79_def mount_def initial_def
        alarmEffect_def handleInteraction_def)
  have b: "level (battery scenarioA) = fl64 (79 / 100) \<and> threshold scenarioA = Finite 80"
    by (simp add: model_defs)
  note r = displayed_percentage [OF a, of "Finite 80"]
  from r have "percentage (mainDisplay scenarioA) =
      Math_round (js_times (level (battery scenarioA)) (Finite 100))"
    by blast
  with b have p: "percentage (mainDisplay scenarioA) = Finite 79"
    by simp
  from r b have q: "panelThreshold (mainDisplay scenarioA) = Finite 80"
    by simp
  from r have "isThresholdReached scenarioA \<longleftrightarrow>
      js_ge (percentage (mainDisplay scenarioA)) (panelThreshold (mainDisplay scenarioA))"
    by blast
  with p q have n: "\<not> isThresholdReached scenarioA"
    by simp
  have c: "statusMessage (mainDisplay scenarioA) = AlarmSetFor (Finite 80)"
    by (simp add: model_defs)
  from a p q c n show ?thesis
    by blast
qed

text \<open>
  C10, as stated, fails in the render that follows a change of inputs and precedes the
  alarm effect. In scenario B the alarm is active; when the alarm is then disabled, the
  component renders with the battery charging, the threshold reached and the alarm
  predicate false, and the message is still the unplug warning, because \<open>isAlarmActive\<close>
  is updated only by the effect.
\<close>

theorem stale_unplug_warning:
  "scenarioB = run [Click, BatteryChange (battery79\<lparr>level := fl64 (80 / 100)\<rparr>)] (mount battery79) \<and>
   dispatch (SetAlarmEnabled False) scenarioB \<in> set (renders (SetAlarmEnabled False) scenarioB) \<and>
   App (dispatch (SetAlarmEnabled False) scenarioB) =
     MainDisplay (mainDisplay (dispatch (SetAlarmEnabled False) scenarioB)) \<and>
   charging (battery (dispatch (SetAlarmEnabled False) scenarioB)) \<and>
   isThresholdReached (dispatch (SetAlarmEnabled False) scenarioB) \<and>
   \<not> isAlarmEnabled (dispatch (SetAlarmEnabled False) scenarioB) \<and>
   \<not> shouldAlarm (dispatch (SetAlarmEnabled False) scenarioB) \<and>
   statusMessage (mainDisplay (dispatch (SetAlarmEnabled False) scenarioB)) = UnplugChargerNow \<and>
   statusMessage (mainDisplay (dispatch (SetAlarmEnabled False) scenarioB)) \<noteq> ChargeGoalMet"
  by (simp add: scenarioB_def renders_def model_defs)

text \<open>
  C10, amended. Every render of the main display shows one status message, chosen in
  this order: the unplug warning if the stored flag \<open>isAlarmActive\<close> is true; else the
  goal-met message if the battery is charging and the threshold is reached; else the
  alarm-set message with the threshold if it is charging; else the prompt to connect the
  charger. So charging with the threshold reached and the flag false shows the goal-met
  message. Once the alarm effect has run, that is in every state between two events, the
  flag equals the alarm predicate, and there charging with the threshold reached and the
  predicate false shows the goal-met message; in the render between an event and the
  effect the flag still has the value the predicate had before the event.
\<close>

theorem status_message_priority:
  assumes "App s = MainDisplay v"
  shows "statusMessage v =
           (if isAlarmActive s then UnplugChargerNow
            else if charging (battery s) \<and> isThresholdReached s then ChargeGoalMet
            else if charging (battery s) then AlarmSetFor (threshold s)
            else ConnectCharger) \<and>
         (charging (battery s) \<and> isThresholdReached s \<and> \<not> isAlarmActive s \<longrightarrow>
            statusMessage v = ChargeGoalMet) \<and>
         (s = run es (mount b) \<and> charging (battery s) \<and> isThresholdReached s \<and>
          \<not> shouldAlarm s \<longrightarrow> statusMessage v = ChargeGoalMet) \<and>
         (s = run es (mount b) \<and> shouldAlarm s \<longrightarrow> statusMessage v = UnplugChargerNow) \<and>
         (s = dispatch e (run es (mount b)) \<longrightarrow>
            isAlarmActive s = shouldAlarm (run es (mount b)))"
proof -
  from assms have v: "v = mainDisplay s"
    by (simp add: App_def split: if_splits)
  have inv: "isAlarmActive (run es (mount b)) = shouldAlarm (run es (mount b))"
    using settled_reachable [of es b] by (simp add: settled_def)
  then have "isAlarmActive s = shouldAlarm s" if "s = run es (mount b)"
    using that by simp
  moreover have "isAlarmActive s = shouldAlarm (run es (mount b))"
    if "s = dispatch e (run es (mount b))"
    using that inv by simp
  ultimately show ?thesis
    unfolding v by (auto simp: mainDisplay_def)
qed

theorem status_message_priority_witness:
  "App (run [SetAlarmEnabled False] (mount battery90)) =
     MainDisplay (mainDisplay (run [SetAlarmEnabled False] (mount battery90))) \<and>
   charging (battery (run [SetAlarmEnabled False] (mount battery90))) \<and>
   isThresholdReached (run [SetAlarmEnabled False] (mount battery90)) \<and>
   \<not> shouldAlarm (run [SetAlarmEnabled False] (mount battery90)) \<and>
   \<not> isAlarmActive (run [SetAlarmEnabled False] (mount battery90)) \<and>
   statusMessage (mainDisplay (run [SetAlarmEnabled False] (mount battery90))) = ChargeGoalMet \<and>
   App (run [Click] (mount battery90)) = MainDisplay (mainDisplay (run [Click] (mount battery90))) \<and>
   shouldAlarm (run [Click] (mount battery90)) \<and>
   statusMessage (mainDisplay (run [Click] (mount battery90))) = UnplugChargerNow \<and>
   App (dispatch (SetAlarmEnabled False) (run [Click] (mount battery90))) =
     MainDisplay (mainDisplay (dispatch (SetAlarmEnabled False) (run [Click] (mount battery90)))) \<and>
   isAlarmActive (dispatch (SetAlarmEnabled False) (run [Click] (mount battery90)))"
proof -
  let ?s = "run [SetAlarmEnabled False] (mount battery90)"
  let ?t = "run [Click] (mount battery90)"
  let ?u = "dispatch (SetAlarmEnabled False) ?t"
  have a: "App ?s = MainDisplay (mainDisplay ?s)" and a': "App ?t = MainDisplay (mainDisplay ?t)"
    and a'': "App ?u = MainDisplay (mainDisplay ?u)"
    by (simp_all add: App_def battery90_def mount_def initial_def alarmEffect_def
        handleInteraction_def)
  have b: "charging (battery ?s) \<and> isThresholdReached ?s \<and> \<not> shouldAlarm ?s"
    by (simp add: battery90_def model_defs)
  have b': "shouldAlarm ?t"
    by (simp add: battery90_def model_defs)
  note r = status_message_priority [OF a, of "[SetAlarmEnabled False]" battery90 Click]
  note r' = status_message_priority [OF a', of "[Click]" battery90 Click]
  note r'' = status_message_priority [OF a'', of "[Click]" battery90 "SetAlarmEnabled False"]
  from r b have c: "statusMessage (mainDisplay ?s) = ChargeGoalMet"
    by blast
  with r have d: "\<not> isAlarmActive ?s"
    by (auto split: if_splits)
  from r' b' have c': "statusMessage (mainDisplay ?t) = UnplugChargerNow"
    by blast
  from r'' b' have d': "isAlarmActive ?u"
    by blast
  from a a' a'' b b' c d c' d' show ?thesis
    by blast
qed

end
